theory Spec2Isabelle
  imports Main "HOL-Library.Word" "HOL-Library.AList"
begin

unbundle bit_operations_syntax

section \<open>JavaScript strings\<close>

text \<open>
  A JavaScript string is a sequence of UTF-16 code units. Identifiers, the hexadecimal
  digest and generated task ids are all values of this type. \<open>fromAscii\<close> writes an
  ASCII literal as such a string.
\<close>

type_synonym jsstring = "16 word list"

definition fromAscii :: "string \<Rightarrow> jsstring" where
  "fromAscii s = map (\<lambda>c. of_nat (of_char c)) s"

text \<open>
  \<open>String.prototype.trim\<close> strips the ECMAScript WhiteSpace and LineTerminator code
  points from both ends: TAB, LF, VT, FF, CR, SP, NBSP, U+1680, U+2000..U+200A, U+2028, U+2029,
  U+202F, U+205F, U+3000 and U+FEFF. All of them are single code units.
\<close>

definition isWhiteSpace :: "16 word \<Rightarrow> bool" where
  "isWhiteSpace c \<longleftrightarrow>
     c \<in> set [0x09, 0x0A, 0x0B, 0x0C, 0x0D, 0x20, 0xA0, 0x1680,
               0x2028, 0x2029, 0x202F, 0x205F, 0x3000, 0xFEFF]
     \<or> (0x2000 \<le> c \<and> c \<le> 0x200A)"

definition trimStart :: "jsstring \<Rightarrow> jsstring" where
  "trimStart s = dropWhile isWhiteSpace s"

definition trim :: "jsstring \<Rightarrow> jsstring" where
  "trim s = rev (trimStart (rev (trimStart s)))"

text \<open>The spec's "empty or whitespace-only": every code unit, if any, is white space.\<close>

definition whitespaceOnly :: "jsstring \<Rightarrow> bool" where
  "whitespaceOnly s \<longleftrightarrow> list_all isWhiteSpace s"

subsection \<open>UTF-8 encoding of a string\<close>

text \<open>
  \<open>hash.update(patientId)\<close> hashes the UTF-8 encoding of the string. A high surrogate
  followed by a low surrogate is one supplementary code point; a surrogate on its own is
  encoded as U+FFFD, so the encoding is defined for every string and cannot fail.
\<close>

type_synonym byte = "8 word"

definition isHighSurrogate :: "16 word \<Rightarrow> bool" where
  "isHighSurrogate c \<longleftrightarrow> 0xD800 \<le> c \<and> c \<le> 0xDBFF"

definition isLowSurrogate :: "16 word \<Rightarrow> bool" where
  "isLowSurrogate c \<longleftrightarrow> 0xDC00 \<le> c \<and> c \<le> 0xDFFF"

definition scalarOf :: "16 word \<Rightarrow> nat" where
  "scalarOf c = (if isHighSurrogate c \<or> isLowSurrogate c then 0xFFFD else unat c)"

fun codePoints :: "jsstring \<Rightarrow> nat list" where
  "codePoints [] = []"
| "codePoints [c] = [scalarOf c]"
| "codePoints (c # d # ds) =
     (if isHighSurrogate c \<and> isLowSurrogate d
      then (0x10000 + (unat c - 0xD800) * 0x400 + (unat d - 0xDC00)) # codePoints ds
      else scalarOf c # codePoints (d # ds))"

definition utf8_codePoint :: "nat \<Rightarrow> byte list" where
  "utf8_codePoint n =
     (if n < 0x80 then [of_nat n]
      else if n < 0x800 then [of_nat (0xC0 + n div 0x40), of_nat (0x80 + n mod 0x40)]
      else if n < 0x10000 then
        [of_nat (0xE0 + n div 0x1000), of_nat (0x80 + n div 0x40 mod 0x40),
         of_nat (0x80 + n mod 0x40)]
      else
        [of_nat (0xF0 + n div 0x40000), of_nat (0x80 + n div 0x1000 mod 0x40),
         of_nat (0x80 + n div 0x40 mod 0x40), of_nat (0x80 + n mod 0x40)])"

definition utf8 :: "jsstring \<Rightarrow> byte list" where
  "utf8 s = concat (map utf8_codePoint (codePoints s))"

section \<open>SHA-256\<close>

text \<open>
  \<open>createHash('sha256')\<close> is the hash function of FIPS 180-4, on 32-bit words with
  wrap-around addition.
\<close>

type_synonym u32 = "32 word"

definition rotr :: "nat \<Rightarrow> u32 \<Rightarrow> u32" where
  "rotr n x = drop_bit n x OR push_bit (32 - n) x"

definition Ch :: "u32 \<Rightarrow> u32 \<Rightarrow> u32 \<Rightarrow> u32" where
  "Ch x y z = (x AND y) XOR (NOT x AND z)"

definition Maj :: "u32 \<Rightarrow> u32 \<Rightarrow> u32 \<Rightarrow> u32" where
  "Maj x y z = (x AND y) XOR (x AND z) XOR (y AND z)"

definition bsig0 :: "u32 \<Rightarrow> u32" where
  "bsig0 x = rotr 2 x XOR rotr 13 x XOR rotr 22 x"

definition bsig1 :: "u32 \<Rightarrow> u32" where
  "bsig1 x = rotr 6 x XOR rotr 11 x XOR rotr 25 x"

definition ssig0 :: "u32 \<Rightarrow> u32" where
  "ssig0 x = rotr 7 x XOR rotr 18 x XOR drop_bit 3 x"

definition ssig1 :: "u32 \<Rightarrow> u32" where
  "ssig1 x = rotr 17 x XOR rotr 19 x XOR drop_bit 10 x"

definition sha256_K :: "u32 list" where
  "sha256_K =
   [0x428A2F98, 0x71374491, 0xB5C0FBCF, 0xE9B5DBA5, 0x3956C25B, 0x59F111F1, 0x923F82A4, 0xAB1C5ED5,
    0xD807AA98, 0x12835B01, 0x243185BE, 0x550C7DC3, 0x72BE5D74, 0x80DEB1FE, 0x9BDC06A7, 0xC19BF174,
    0xE49B69C1, 0xEFBE4786, 0x0FC19DC6, 0x240CA1CC, 0x2DE92C6F, 0x4A7484AA, 0x5CB0A9DC, 0x76F988DA,
    0x983E5152, 0xA831C66D, 0xB00327C8, 0xBF597FC7, 0xC6E00BF3, 0xD5A79147, 0x06CA6351, 0x14292967,
    0x27B70A85, 0x2E1B2138, 0x4D2C6DFC, 0x53380D13, 0x650A7354, 0x766A0ABB, 0x81C2C92E, 0x92722C85,
    0xA2BFE8A1, 0xA81A664B, 0xC24B8B70, 0xC76C51A3, 0xD192E819, 0xD6990624, 0xF40E3585, 0x106AA070,
    0x19A4C116, 0x1E376C08, 0x2748774C, 0x34B0BCB5, 0x391C0CB3, 0x4ED8AA4A, 0x5B9CCA4F, 0x682E6FF3,
    0x748F82EE, 0x78A5636F, 0x84C87814, 0x8CC70208, 0x90BEFFFA, 0xA4506CEB, 0xBEF9A3F7, 0xC67178F2]"

type_synonym sha_state = "u32 \<times> u32 \<times> u32 \<times> u32 \<times> u32 \<times> u32 \<times> u32 \<times> u32"

definition sha256_H0 :: sha_state where
  "sha256_H0 = (0x6A09E667, 0xBB67AE85, 0x3C6EF372, 0xA54FF53A,
                0x510E527F, 0x9B05688C, 0x1F83D9AB, 0x5BE0CD19)"

text \<open>Big-endian reading of a byte sequence as an unsigned 32-bit integer.\<close>

definition be32 :: "byte list \<Rightarrow> u32" where
  "be32 bs = foldl (\<lambda>acc b. acc * 0x100 + ucast b) 0 bs"

definition u32_bytes :: "u32 \<Rightarrow> byte list" where
  "u32_bytes w = [ucast (drop_bit 24 w), ucast (drop_bit 16 w), ucast (drop_bit 8 w), ucast w]"

definition u64_bytes :: "64 word \<Rightarrow> byte list" where
  "u64_bytes w = map (\<lambda>i. ucast (drop_bit (8 * (7 - i)) w)) [0..<8]"

definition sha256_pad :: "byte list \<Rightarrow> byte list" where
  "sha256_pad m =
     m @ [0x80] @ replicate ((64 - (length m + 9) mod 64) mod 64) 0
       @ u64_bytes (of_nat (8 * length m))"

fun chunks :: "nat \<Rightarrow> 'a list \<Rightarrow> 'a list list" where
  "chunks n xs = (if n = 0 \<or> xs = [] then [] else take n xs # chunks n (drop n xs))"

declare chunks.simps [simp del]

fun schedule :: "nat \<Rightarrow> u32 list \<Rightarrow> u32 list" where
  "schedule 0 ws = ws"
| "schedule (Suc k) ws =
     (let t = length ws in
      schedule k
        (ws @ [ssig1 (ws ! (t - 2)) + ws ! (t - 7) + ssig0 (ws ! (t - 15)) + ws ! (t - 16)]))"

fun sha256_round :: "sha_state \<Rightarrow> u32 \<times> u32 \<Rightarrow> sha_state" where
  "sha256_round (a, b, c, d, e, f, g, h) (k, w) =
     (let t1 = h + bsig1 e + Ch e f g + k + w;
          t2 = bsig0 a + Maj a b c
      in (t1 + t2, a, b, c, d + t1, e, f, g))"

fun state_add :: "sha_state \<Rightarrow> sha_state \<Rightarrow> sha_state" where
  "state_add (a, b, c, d, e, f, g, h) (a', b', c', d', e', f', g', h') =
     (a + a', b + b', c + c', d + d', e + e', f + f', g + g', h + h')"

definition sha256_block :: "sha_state \<Rightarrow> byte list \<Rightarrow> sha_state" where
  "sha256_block s blk =
     state_add s
       (foldl sha256_round s (zip sha256_K (schedule 48 (map be32 (chunks 4 blk)))))"

fun state_bytes :: "sha_state \<Rightarrow> byte list" where
  "state_bytes (a, b, c, d, e, f, g, h) = concat (map u32_bytes [a, b, c, d, e, f, g, h])"

definition sha256 :: "byte list \<Rightarrow> byte list" where
  "sha256 m = state_bytes (foldl sha256_block sha256_H0 (chunks 64 (sha256_pad m)))"

section \<open>Hexadecimal digest and \<open>parseInt\<close>\<close>

text \<open>\<open>digest('hex')\<close>: two lower-case hexadecimal digits per byte, high nibble first.\<close>

definition hexdigit :: "nat \<Rightarrow> 16 word" where
  "hexdigit n = fromAscii ''0123456789abcdef'' ! n"

definition hex :: "byte list \<Rightarrow> jsstring" where
  "hex bs = concat (map (\<lambda>b. [hexdigit (unat b div 16), hexdigit (unat b mod 16)]) bs)"

text \<open>
  \<open>parseInt(s, 16)\<close>: skip leading white space, read an optional sign, skip an optional
  \<open>0x\<close> or \<open>0X\<close>, then read the longest prefix of hexadecimal digits. With no digit the
  result is NaN, here \<open>None\<close>. (A value of more than 53 bits would be rounded to a double;
  \<open>computeOffset\<close> passes eight digits.)
\<close>

definition digitVal :: "16 word \<Rightarrow> nat option" where
  "digitVal c =
     (if 0x30 \<le> c \<and> c \<le> 0x39 then Some (unat c - 0x30)
      else if 0x61 \<le> c \<and> c \<le> 0x66 then Some (unat c - 0x61 + 10)
      else if 0x41 \<le> c \<and> c \<le> 0x46 then Some (unat c - 0x41 + 10)
      else None)"

definition parseInt16 :: "jsstring \<Rightarrow> int option" where
  "parseInt16 s =
     (let s1 = trimStart s;
          negative = (take 1 s1 = [0x2D]);
          s2 = (if take 1 s1 = [0x2B] \<or> take 1 s1 = [0x2D] then drop 1 s1 else s1);
          s3 = (if take 2 s2 = [0x30, 0x78] \<or> take 2 s2 = [0x30, 0x58] then drop 2 s2 else s2);
          z = takeWhile (\<lambda>c. digitVal c \<noteq> None) s3
      in if z = [] then None
         else Some ((if negative then - 1 else 1)
                    * int (foldl (\<lambda>acc c. 16 * acc + the (digitVal c)) 0 z)))"

section \<open>hasher.ts\<close>

text \<open>
  Every \<open>throw new Error(message)\<close> of the two modules is one constructor. \<open>NotANumber\<close>
  is not a throw: it marks the path on which \<open>parseInt\<close> yields NaN and \<open>computeOffset\<close>
  would return NaN; \<open>parseInt16_digest\<close> below shows that a digest never takes it.
\<close>

datatype error =
    PatientIdEmpty            \<comment> \<open>hasher: Patient ID is required and cannot be empty\<close>
  | BinCountNotPositiveInt    \<comment> \<open>hasher: Bin count must be a positive integer\<close>
  | NotANumber
  | PatientIdRequired         \<comment> \<open>generator: Patient ID is required\<close>
  | IntervalNotPositive       \<comment> \<open>constructor: Interval seconds must be positive\<close>
  | BinCountNotPositive       \<comment> \<open>constructor: Bin count must be positive\<close>
  | BinCountExceedsInterval   \<comment> \<open>constructor: Bin count cannot exceed interval seconds\<close>

definition DEFAULT_BIN_COUNT :: int where
  "DEFAULT_BIN_COUNT = 300"

definition SCRAPE_INTERVAL_SECONDS :: int where
  "SCRAPE_INTERVAL_SECONDS = 300"

text \<open>
  Numbers that the spec declares integers (\<open>binCount\<close>, \<open>intervalSeconds\<close>, offsets) are
  \<open>int\<close>. \<open>!patientId\<close> on a string is emptiness. The dividend of \<open>%\<close> is not negative
  and the divisor is positive where it is reached, so JavaScript's remainder is \<open>mod\<close>.
\<close>

definition computeOffset :: "jsstring \<Rightarrow> int \<Rightarrow> error + int" where
  "computeOffset patientId binCount =
     (if patientId = [] \<or> length (trim patientId) = 0 then Inl PatientIdEmpty
      else if binCount \<le> 0 then Inl BinCountNotPositiveInt
      else
        let hash = hex (sha256 (utf8 patientId)) in
        case parseInt16 (take 8 hash) of
          None \<Rightarrow> Inl NotANumber
        | Some numericValue \<Rightarrow> Inr (numericValue mod binCount))"


subsection \<open>Dates\<close>

text \<open>
  A \<open>Date\<close> holds a time value: an integral number of milliseconds since the epoch of
  absolute value at most 8.64e15, or NaN (an Invalid Date), here \<open>None\<close>. \<open>new Date(v)\<close>
  clips \<open>v\<close> to that range; arithmetic on NaN is NaN. The sums formed below stay far under
  2^53, so they are exact on doubles.
\<close>

type_synonym date = "int option"

definition maxTimeValue :: int where
  "maxTimeValue = 8640000000000000"

definition newDate :: "int option \<Rightarrow> date" where
  "newDate v =
     (case v of
        None \<Rightarrow> None
      | Some t \<Rightarrow> if \<bar>t\<bar> > maxTimeValue then None else Some t)"

definition getTime :: "date \<Rightarrow> int option" where
  "getTime d = d"

definition computeFireTime :: "jsstring \<Rightarrow> date \<Rightarrow> int \<Rightarrow> error + date" where
  "computeFireTime patientId cycleStart binCount =
     (case computeOffset patientId binCount of
        Inl e \<Rightarrow> Inl e
      | Inr offsetSeconds \<Rightarrow>
          Inr (newDate (map_option (\<lambda>t. t + offsetSeconds * 1000) (getTime cycleStart))))"

subsection \<open>Distribution analysis\<close>

text \<open>
  A \<open>Map<number, number>\<close> keeps its keys in insertion order: \<open>set\<close> on a present key
  replaces the value in place, on a new key appends an entry, which is \<open>AList.update\<close>.
  \<open>m.get(k) || 0\<close> is 0 for an absent key.
\<close>

type_synonym binmap = "(int \<times> nat) list"

definition getOr0 :: "binmap \<Rightarrow> int \<Rightarrow> nat" where
  "getOr0 m k = (case map_of m k of None \<Rightarrow> 0 | Some v \<Rightarrow> v)"

function initBins :: "int \<Rightarrow> int \<Rightarrow> binmap \<Rightarrow> binmap" where
  "initBins i binCount m =
     (if i < binCount then initBins (i + 1) binCount (AList.update i 0 m) else m)"
  by pat_completeness auto
termination
  by (relation "measure (\<lambda>(i, binCount, m). nat (binCount - i))") auto

declare initBins.simps [simp del]

fun countOffsets :: "int \<Rightarrow> jsstring list \<Rightarrow> binmap \<Rightarrow> error + binmap" where
  "countOffsets binCount [] m = Inr m"
| "countOffsets binCount (patientId # rest) m =
     (case computeOffset patientId binCount of
        Inl e \<Rightarrow> Inl e
      | Inr offset \<Rightarrow> countOffsets binCount rest (AList.update offset (getOr0 m offset + 1) m))"

text \<open>
  The statistics are values of IEEE 754 doubles, computed with \<open>+\<close>, \<open>-\<close>, \<open>/\<close>,
  \<open>Math.pow\<close>, \<open>Math.sqrt\<close>, \<open>>\<close> and \<open><=\<close>; \<open>Math.pow\<close> is only required to
  approximate its result. The model does not fix that arithmetic: \<open>double\<close> is the type of
  the values, and the operations the two functions use are a parameter of the model, so
  that what is proved holds whatever the operations compute.
\<close>

typedecl double

record float_ops =
  fromInt :: "int \<Rightarrow> double"
  d_add :: "double \<Rightarrow> double \<Rightarrow> double"
  d_sub :: "double \<Rightarrow> double \<Rightarrow> double"
  d_div :: "double \<Rightarrow> double \<Rightarrow> double"
  d_pow :: "double \<Rightarrow> double \<Rightarrow> double"
  d_sqrt :: "double \<Rightarrow> double"
  d_less :: "double \<Rightarrow> double \<Rightarrow> bool"
  d_le :: "double \<Rightarrow> double \<Rightarrow> bool"

text \<open>
  The counts are integers far below 2^53, so \<open>Math.min\<close> and \<open>Math.max\<close> of them are
  exact; of no count at all they are \<open>Infinity\<close> and \<open>-Infinity\<close>, here \<open>None\<close>.
  \<open>xs.reduce((a, b) => a + b, 0)\<close> adds from the left, starting at 0. Resource limits of
  an engine (memory, the number of arguments a call can take) are outside the model.
\<close>

record distribution =
  binCounts :: binmap
  min_count :: "nat option"
  max_count :: "nat option"
  mean :: double
  stdDev :: double
  variance :: double

definition reduceAdd :: "float_ops \<Rightarrow> double list \<Rightarrow> double" where
  "reduceAdd fp xs = foldl (d_add fp) (fromInt fp 0) xs"

definition analyzeDistribution ::
  "float_ops \<Rightarrow> jsstring list \<Rightarrow> int \<Rightarrow> error + distribution" where
  "analyzeDistribution fp patientIds binCount =
     (case countOffsets binCount patientIds (initBins 0 binCount []) of
        Inl e \<Rightarrow> Inl e
      | Inr bc \<Rightarrow>
          let counts = map snd bc;
              mn = (case counts of [] \<Rightarrow> None | c # cs \<Rightarrow> Some (fold min cs c));
              mx = (case counts of [] \<Rightarrow> None | c # cs \<Rightarrow> Some (fold max cs c));
              numbers = map (\<lambda>count. fromInt fp (int count)) counts;
              len = fromInt fp (int (length counts));
              mean = d_div fp (reduceAdd fp numbers) len;
              squaredDiffs = map (\<lambda>count. d_pow fp (d_sub fp count mean) (fromInt fp 2)) numbers;
              variance = d_div fp (reduceAdd fp squaredDiffs) len;
              stdDev = d_sqrt fp variance
          in Inr \<lparr>binCounts = bc, min_count = mn, max_count = mx, mean = mean,
                  stdDev = stdDev, variance = variance\<rparr>)"

definition isDistributionAcceptable ::
  "float_ops \<Rightarrow> jsstring list \<Rightarrow> int \<Rightarrow> double \<Rightarrow> error + bool" where
  "isDistributionAcceptable fp patientIds binCount maxVariance =
     (case analyzeDistribution fp patientIds binCount of
        Inl e \<Rightarrow> Inl e
      | Inr d \<Rightarrow>
          let cv = (if d_less fp (fromInt fp 0) (mean d) then d_div fp (stdDev d) (mean d)
                    else fromInt fp 0)
          in Inr (d_le fp cv maxVariance))"

section \<open>TaskGenerator.ts\<close>

datatype RiskLevel = high | medium | low

datatype TaskStatus = pending | in_progress | completed | failed

record PatientInput =
  patient_id :: jsstring
  endpointUrl :: "jsstring option"
  riskLevel :: "RiskLevel option"

record ScrapeTask =
  task_id :: jsstring
  patientId :: jsstring
  fireAt :: date
  offsetSeconds :: int
  status :: TaskStatus
  consecutiveFailures :: nat
  createdAt :: date
  completedAt :: "date option"

record TaskGeneratorConfig =
  cfg_intervalSeconds :: "int option"
  cfg_binCount :: "int option"

record TaskGenerator =
  intervalSeconds :: int
  binCount :: int

record GenerationStats =
  totalPatients :: nat
  tasksGenerated :: nat
  binDistribution :: binmap
  generationTimeMs :: int

record TaskGenerationResult =
  tasks :: "ScrapeTask list"
  stats :: GenerationStats

text \<open>
  The constructor: \<open>??\<close> takes the default for an absent field, then the three checks
  in the order of the source. A throw leaves no object behind: the result is \<open>Inl\<close>.
\<close>

definition newTaskGenerator :: "TaskGeneratorConfig \<Rightarrow> error + TaskGenerator" where
  "newTaskGenerator config =
     (let i = (case cfg_intervalSeconds config of None \<Rightarrow> SCRAPE_INTERVAL_SECONDS | Some v \<Rightarrow> v);
          b = (case cfg_binCount config of None \<Rightarrow> DEFAULT_BIN_COUNT | Some v \<Rightarrow> v)
      in if i \<le> 0 then Inl IntervalNotPositive
         else if b \<le> 0 then Inl BinCountNotPositive
         else if b > i then Inl BinCountExceedsInterval
         else Inr \<lparr>intervalSeconds = i, binCount = b\<rparr>)"

text \<open>
  \<open>randomUUID()\<close> and the clock (\<open>new Date()\<close>, \<open>Date.now()\<close>) are the two effects of
  the generator. The world supplies the result of the n-th call of each and counts the
  calls made. \<open>console.error\<close> only writes to the error stream; no value of the program
  depends on it and the world does not record it.
\<close>

record world =
  uuidSource :: "nat \<Rightarrow> jsstring"
  uuidCalls :: nat
  clockSource :: "nat \<Rightarrow> int"
  clockCalls :: nat

definition randomUUID :: "world \<Rightarrow> jsstring \<times> world" where
  "randomUUID w = (uuidSource w (uuidCalls w), w\<lparr>uuidCalls := Suc (uuidCalls w)\<rparr>)"

definition dateNow :: "world \<Rightarrow> int \<times> world" where
  "dateNow w = (clockSource w (clockCalls w), w\<lparr>clockCalls := Suc (clockCalls w)\<rparr>)"

definition generateTaskForPatient ::
  "TaskGenerator \<Rightarrow> PatientInput \<Rightarrow> date \<Rightarrow> world \<Rightarrow> error + ScrapeTask \<times> world" where
  "generateTaskForPatient g patient cycleStart w =
     (if patient_id patient = [] then Inl PatientIdRequired
      else
        case computeOffset (patient_id patient) (binCount g) of
          Inl e \<Rightarrow> Inl e
        | Inr offset \<Rightarrow>
            (case computeFireTime (patient_id patient) cycleStart (binCount g) of
               Inl e \<Rightarrow> Inl e
             | Inr fire \<Rightarrow>
                 let (uuid, w1) = randomUUID w;
                     (now, w2) = dateNow w1
                 in Inr (\<lparr>task_id = uuid, patientId = patient_id patient, fireAt = fire,
                          offsetSeconds = offset, status = pending, consecutiveFailures = 0,
                          createdAt = newDate (Some now), completedAt = None\<rparr>, w2)))"

text \<open>
  The loop of \<open>generateTasksForPatients\<close>, with its \<open>try\<close>/\<open>catch\<close>: a record whose
  task generation throws is passed over, with the lists and the world as they were.
\<close>

fun generateLoop ::
  "TaskGenerator \<Rightarrow> date \<Rightarrow> PatientInput list \<Rightarrow> ScrapeTask list \<times> binmap \<times> world
     \<Rightarrow> ScrapeTask list \<times> binmap \<times> world" where
  "generateLoop g cycleStart [] st = st"
| "generateLoop g cycleStart (patient # rest) (ts, bd, w) =
     (case generateTaskForPatient g patient cycleStart w of
        Inr (task, w') \<Rightarrow>
          generateLoop g cycleStart rest
            (ts @ [task],
             AList.update (offsetSeconds task) (getOr0 bd (offsetSeconds task) + 1) bd, w')
      | Inl e \<Rightarrow> generateLoop g cycleStart rest (ts, bd, w))"

definition generateTasksForPatients ::
  "TaskGenerator \<Rightarrow> PatientInput list \<Rightarrow> date \<Rightarrow> world \<Rightarrow> TaskGenerationResult \<times> world" where
  "generateTasksForPatients g patients cycleStart w =
     (let (startTime, w0) = dateNow w;
          (ts, bd, w1) = generateLoop g cycleStart patients ([], initBins 0 (binCount g) [], w0);
          (endTime, w2) = dateNow w1
      in (\<lparr>tasks = ts,
           stats = \<lparr>totalPatients = length patients, tasksGenerated = length ts,
                    binDistribution = bd, generationTimeMs = endTime - startTime\<rparr>\<rparr>, w2))"

text \<open>An identifier that \<open>computeOffset\<close> accepts: not empty once trimmed.\<close>

definition validId :: "jsstring \<Rightarrow> bool" where
  "validId s \<longleftrightarrow> trim s \<noteq> []"

text \<open>
  The spec's algorithm for the offset, in its words: take the first 32 bits of the digest
  of the identifier, read as an unsigned integer.
\<close>

definition digestPrefix :: "jsstring \<Rightarrow> int" where
  "digestPrefix s = int (unat (be32 (take 4 (sha256 (utf8 s)))))"

text \<open>
  What the bin map is to hold after the offsets \<open>offs\<close> have been counted: the keys are the
  bins \<open>0, \<dots>, n - 1\<close> in this order, and bin \<open>b\<close> holds the number of occurrences of \<open>b\<close>.
\<close>

definition histogramOf :: "int \<Rightarrow> binmap \<Rightarrow> int list \<Rightarrow> bool" where
  "histogramOf n bd offs \<longleftrightarrow> bd = map (\<lambda>b. (b, count_list offs b)) [0..n - 1]"

text \<open>A world for the examples: every task id is empty and the clock stands at 0.\<close>

definition world0 :: world where
  "world0 = \<lparr>uuidSource = (\<lambda>_. []), uuidCalls = 0, clockSource = (\<lambda>_. 0), clockCalls = 0\<rparr>"

text \<open>
  What \<open>generateTaskForPatient\<close> makes of a record it accepts, for generator \<open>g\<close> and
  cycle start \<open>c\<close>: the offset is the digest prefix modulo the bin count, and the fire
  time is the date made from the cycle start plus that many seconds.
\<close>

definition taskOf :: "TaskGenerator \<Rightarrow> date \<Rightarrow> ScrapeTask \<Rightarrow> bool" where
  "taskOf g c t \<longleftrightarrow>
     validId (patientId t)
     \<and> offsetSeconds t = digestPrefix (patientId t) mod binCount g
     \<and> fireAt t = newDate (map_option (\<lambda>ms. ms + offsetSeconds t * 1000) (getTime c))
     \<and> status t = pending \<and> consecutiveFailures t = 0"


section \<open>Strings, digests and \<open>parseInt\<close>\<close>

lemma trimStart_Nil_iff: "trimStart s = [] \<longleftrightarrow> whitespaceOnly s"
  by (simp add: trimStart_def whitespaceOnly_def dropWhile_eq_Nil_conv list_all_iff)

lemma trim_Nil_iff: "trim s = [] \<longleftrightarrow> whitespaceOnly s"
proof
  assume "trim s = []"
  then have all: "\<forall>c \<in> set (dropWhile isWhiteSpace s). isWhiteSpace c"
    by (simp add: trim_def trimStart_def dropWhile_eq_Nil_conv)
  have "dropWhile isWhiteSpace s = []"
  proof (rule ccontr)
    assume ne: "dropWhile isWhiteSpace s \<noteq> []"
    then have "\<not> isWhiteSpace (hd (dropWhile isWhiteSpace s))"
      by (rule hd_dropWhile)
    moreover have "hd (dropWhile isWhiteSpace s) \<in> set (dropWhile isWhiteSpace s)"
      using ne by simp
    ultimately show False using all by blast
  qed
  then show "whitespaceOnly s"
    by (simp add: whitespaceOnly_def dropWhile_eq_Nil_conv list_all_iff)
next
  assume "whitespaceOnly s"
  then have "trimStart s = []" by (simp only: trimStart_Nil_iff)
  then have "trim s = rev (trimStart (rev []))" by (simp only: trim_def)
  then show "trim s = []" by (simp add: trimStart_def)
qed

lemma length_u32_bytes: "length (u32_bytes w) = 4"
  by (simp add: u32_bytes_def)

lemma length_state_bytes: "length (state_bytes s) = 32"
  by (cases s rule: state_bytes.cases) (simp add: length_u32_bytes)

lemma length_sha256: "length (sha256 m) = 32"
  by (simp add: sha256_def length_state_bytes)

lemma hexdigit_all:
  "list_all (\<lambda>n. digitVal (hexdigit n) = Some n \<and> \<not> isWhiteSpace (hexdigit n)
                \<and> hexdigit n \<noteq> 0x2B \<and> hexdigit n \<noteq> 0x2D
                \<and> hexdigit n \<noteq> 0x78 \<and> hexdigit n \<noteq> 0x58) [0..<16]"
  by code_simp

lemma hexdigit_props:
  assumes "n < 16"
  shows "digitVal (hexdigit n) = Some n"
    and "\<not> isWhiteSpace (hexdigit n)"
    and "hexdigit n \<noteq> 0x2B" and "hexdigit n \<noteq> 0x2D"
    and "hexdigit n \<noteq> 0x78" and "hexdigit n \<noteq> 0x58"
proof -
  have "n \<in> set [0..<16]" using assms by simp
  with hexdigit_all
  have "digitVal (hexdigit n) = Some n \<and> \<not> isWhiteSpace (hexdigit n)
                \<and> hexdigit n \<noteq> 0x2B \<and> hexdigit n \<noteq> 0x2D
                \<and> hexdigit n \<noteq> 0x78 \<and> hexdigit n \<noteq> 0x58"
    unfolding list_all_iff by blast
  then show "digitVal (hexdigit n) = Some n"
    and "\<not> isWhiteSpace (hexdigit n)"
    and "hexdigit n \<noteq> 0x2B" and "hexdigit n \<noteq> 0x2D"
    and "hexdigit n \<noteq> 0x78" and "hexdigit n \<noteq> 0x58"
    by blast+
qed

lemma foldl_digitVal_hexdigit:
  assumes "\<forall>n \<in> set ns. n < 16"
  shows "foldl (\<lambda>acc c. 16 * acc + the (digitVal c)) a (map hexdigit ns)
       = foldl (\<lambda>acc n. 16 * acc + n) a ns"
  using assms by (induction ns arbitrary: a) (simp_all add: hexdigit_props)

lemma parseInt16_hexdigits:
  assumes lt: "\<forall>n \<in> set ns. n < 16" and ne: "ns \<noteq> []"
  shows "parseInt16 (map hexdigit ns) = Some (int (foldl (\<lambda>acc n. 16 * acc + n) 0 ns))"
proof -
  obtain n ns' where ns: "ns = n # ns'" using ne by (cases ns) auto
  let ?s = "map hexdigit ns"
  have n: "n < 16" using lt ns by simp
  have s1: "trimStart ?s = ?s"
    using hexdigit_props(2) [OF n] by (simp add: trimStart_def ns)
  have sign: "take 1 ?s \<noteq> [0x2B]" "take 1 ?s \<noteq> [0x2D]"
    using hexdigit_props(3,4) [OF n] by (simp_all add: ns)
  have pre: "take 2 ?s \<noteq> [0x30, 0x78] \<and> take 2 ?s \<noteq> [0x30, 0x58]"
  proof (cases ns')
    case Nil
    then show ?thesis by (simp add: ns)
  next
    case (Cons m ms)
    then have "m < 16" using lt ns by simp
    then show ?thesis
      using hexdigit_props(5,6) [of m] by (simp add: ns Cons)
  qed
  have z: "takeWhile (\<lambda>c. digitVal c \<noteq> None) ?s = ?s"
    using lt by (simp add: takeWhile_eq_all_conv hexdigit_props)
  have "parseInt16 ?s = (if ?s = [] then None
          else Some (1 * int (foldl (\<lambda>acc c. 16 * acc + the (digitVal c)) 0 ?s)))"
    unfolding parseInt16_def Let_def s1
    by (simp only: sign pre z if_False simp_thms)
  then show ?thesis
    using ne by (simp add: foldl_digitVal_hexdigit [OF lt])
qed

lemma take8_hex:
  "take 8 (hex (a # b # c # d # rest)) =
     map hexdigit [unat a div 16, unat a mod 16, unat b div 16, unat b mod 16,
                   unat c div 16, unat c mod 16, unat d div 16, unat d mod 16]"
  by (simp add: hex_def)

lemma unat_byte_lt: "unat (b :: byte) < 256"
  using unsigned_less [of b, where 'a = nat] by simp

lemma unat_ucast_byte: "unat (ucast (b :: byte) :: u32) = unat b"
  using unat_byte_lt [of b] by (simp add: unsigned_ucast_eq take_bit_nat_eq_self)

lemma unat_be32_4:
  "unat (be32 [a, b, c, d]) = ((unat a * 256 + unat b) * 256 + unat c) * 256 + unat d"
proof -
  have "((unat a * 256 + unat b) * 256 + unat c) * 256 + unat d < 2 ^ 32"
    using unat_byte_lt [of a] unat_byte_lt [of b] unat_byte_lt [of c] unat_byte_lt [of d]
    by simp
  then show ?thesis
    by (simp add: be32_def unat_word_ariths unat_ucast_byte mod_simps)
qed

lemma parseInt16_digest:
  assumes "4 \<le> length bs"
  shows "parseInt16 (take 8 (hex bs)) = Some (int (unat (be32 (take 4 bs))))"
proof -
  obtain a b c d rest where bs: "bs = a # b # c # d # rest"
    using assms by (cases bs; cases "tl bs"; cases "tl (tl bs)"; cases "tl (tl (tl bs))") auto
  let ?ns = "[unat a div 16, unat a mod 16, unat b div 16, unat b mod 16,
              unat c div 16, unat c mod 16, unat d div 16, unat d mod 16]"
  have lt: "\<forall>n \<in> set ?ns. n < 16"
    using unat_byte_lt [of a] unat_byte_lt [of b] unat_byte_lt [of c] unat_byte_lt [of d]
    by auto
  have "parseInt16 (take 8 (hex bs)) = Some (int (foldl (\<lambda>acc n. 16 * acc + n) 0 ?ns))"
    unfolding bs take8_hex by (rule parseInt16_hexdigits [OF lt]) simp
  also have "foldl (\<lambda>acc n. 16 * acc + n) 0 ?ns
           = ((unat a * 256 + unat b) * 256 + unat c) * 256 + unat d"
    by simp
  also have "\<dots> = unat (be32 (take 4 bs))"
    by (simp add: bs unat_be32_4)
  finally show ?thesis .
qed


section \<open>The offset and the bin map\<close>

lemma trim_Nil [simp]: "trim [] = []"
  by (simp add: trim_def trimStart_def)

lemma computeOffset_eq:
  "computeOffset s n =
     (if \<not> validId s then Inl PatientIdEmpty
      else if n \<le> 0 then Inl BinCountNotPositiveInt
      else Inr (digestPrefix s mod n))"
proof (cases "validId s")
  case False
  then show ?thesis by (simp add: computeOffset_def validId_def)
next
  case True
  then have ne: "s \<noteq> []" "trim s \<noteq> []" by (auto simp: validId_def)
  have "parseInt16 (take 8 (hex (sha256 (utf8 s)))) = Some (digestPrefix s)"
    by (simp add: parseInt16_digest length_sha256 digestPrefix_def)
  with True ne show ?thesis by (simp add: computeOffset_def)
qed

lemma digestPrefix_nonneg: "0 \<le> digestPrefix s"
  by (simp add: digestPrefix_def)

lemma update_fresh: "k \<notin> fst ` set al \<Longrightarrow> AList.update k v al = al @ [(k, v)]"
  by (induction al) auto

lemma initBins_from:
  "0 \<le> i \<Longrightarrow> i \<le> n \<Longrightarrow>
   initBins i n (map (\<lambda>k. (k, 0)) [0..i - 1]) = map (\<lambda>k. (k, 0)) [0..n - 1]"
proof (induction "nat (n - i)" arbitrary: i)
  case 0
  then have "i = n" by simp
  then show ?case by (simp add: initBins.simps)
next
  case (Suc d)
  then have lt: "i < n" by simp
  have "AList.update i 0 (map (\<lambda>k. (k, 0::nat)) [0..i - 1]) = map (\<lambda>k. (k, 0)) [0..i - 1] @ [(i, 0)]"
    by (rule update_fresh) auto
  also have "\<dots> = map (\<lambda>k. (k, 0)) [0..(i + 1) - 1]"
    using Suc.prems by (simp add: upto_rec2)
  finally have "initBins i n (map (\<lambda>k. (k, 0)) [0..i - 1])
              = initBins (i + 1) n (map (\<lambda>k. (k, 0)) [0..(i + 1) - 1])"
    using lt by (subst initBins.simps) simp
  also have "\<dots> = map (\<lambda>k. (k, 0)) [0..n - 1]"
    using Suc lt by (intro Suc.hyps) auto
  finally show ?case .
qed

lemma initBins_0: "initBins 0 n [] = map (\<lambda>k. (k, 0)) [0..n - 1]"
proof (cases "0 \<le> n")
  case True
  then show ?thesis using initBins_from [of 0 n] by simp
next
  case False
  then show ?thesis by (simp add: initBins.simps)
qed


section \<open>Claims about \<open>computeOffset\<close> and the constructor\<close>

lemma validId_patient_123: "trim (fromAscii ''patient-123'') \<noteq> []"
  by code_simp

text \<open>
  C1. For an identifier that is not empty once trimmed and a positive bin count,
  \<open>computeOffset\<close> returns the first 32 bits of the SHA-256 digest of the identifier, read
  as a big-endian unsigned integer, modulo the bin count. The result is a function of the
  two arguments alone.
\<close>

theorem computeOffset_digest_prefix:
  assumes "trim identifier \<noteq> []" and "0 < n"
  shows "computeOffset identifier n
       = Inr (int (unat (be32 (take 4 (sha256 (utf8 identifier))))) mod n)"
  using assms by (simp add: computeOffset_eq validId_def digestPrefix_def)

theorem computeOffset_digest_prefix_witness:
  "trim (fromAscii ''patient-123'') \<noteq> [] \<and> (0::int) < 300
   \<and> computeOffset (fromAscii ''patient-123'') 300
     = Inr (int (unat (be32 (take 4 (sha256 (utf8 (fromAscii ''patient-123'')))))) mod 300)"
proof -
  have pos: "(0::int) < 300" by simp
  from computeOffset_digest_prefix [OF validId_patient_123 pos] validId_patient_123 pos
  show ?thesis by blast
qed

text \<open>
  C2. For an identifier that is not empty once trimmed and a positive bin count \<open>n\<close>,
  \<open>computeOffset\<close> returns an integer \<open>k\<close> with \<open>0 \<le> k < n\<close>.
\<close>

theorem computeOffset_range:
  assumes "trim x \<noteq> []" and "0 < n"
  shows "\<exists>k. computeOffset x n = Inr k \<and> 0 \<le> k \<and> k < n"
  using assms by (simp add: computeOffset_eq validId_def)

theorem computeOffset_range_witness:
  "trim (fromAscii ''patient-123'') \<noteq> [] \<and> (0::int) < 60
   \<and> (\<exists>k. computeOffset (fromAscii ''patient-123'') 60 = Inr k \<and> 0 \<le> k \<and> k < 60)"
proof -
  have pos: "(0::int) < 60" by simp
  from computeOffset_range [OF validId_patient_123 pos] validId_patient_123 pos
  show ?thesis by blast
qed

text \<open>
  C7. \<open>computeOffset\<close> throws exactly when the identifier is empty or consists of white
  space only, or the bin count is not positive, and then with one of its two argument
  errors; for every other identifier, whatever its content, and every positive bin count it
  returns a number.
\<close>

theorem computeOffset_throws_iff:
  "(isl (computeOffset identifier n) \<longleftrightarrow> whitespaceOnly identifier \<or> n \<le> 0)
   \<and> (computeOffset identifier n = Inl PatientIdEmpty \<longleftrightarrow> whitespaceOnly identifier)
   \<and> (computeOffset identifier n = Inl BinCountNotPositiveInt
        \<longleftrightarrow> \<not> whitespaceOnly identifier \<and> n \<le> 0)
   \<and> (\<not> whitespaceOnly identifier \<and> 0 < n
        \<longrightarrow> (\<exists>k. computeOffset identifier n = Inr k))"
  by (simp add: computeOffset_eq validId_def trim_Nil_iff)

theorem computeOffset_throws_iff_witness:
  "\<not> whitespaceOnly [0x60A3, 0x8005, 0x2D, 0xD83D, 0xDE00] \<and> (0::int) < 300
   \<and> (\<exists>k. computeOffset [0x60A3, 0x8005, 0x2D, 0xD83D, 0xDE00] 300 = Inr k)
   \<and> computeOffset [0x20, 0x09, 0x3000] 300 = Inl PatientIdEmpty
   \<and> computeOffset (fromAscii ''patient-123'') 0 = Inl BinCountNotPositiveInt"
proof -
  have a: "\<not> whitespaceOnly [0x60A3, 0x8005, 0x2D, 0xD83D, 0xDE00]" by code_simp
  have b: "whitespaceOnly [0x20, 0x09, 0x3000]" by code_simp
  have c: "\<not> whitespaceOnly (fromAscii ''patient-123'')"
    using validId_patient_123 by (simp add: trim_Nil_iff)
  have pos: "(0::int) < 300" by simp
  have z: "(0::int) \<le> 0" by simp
  from computeOffset_throws_iff [of "[0x60A3, 0x8005, 0x2D, 0xD83D, 0xDE00]" 300]
       computeOffset_throws_iff [of "[0x20, 0x09, 0x3000]" 300]
       computeOffset_throws_iff [of "fromAscii ''patient-123''" 0] a b c pos z
  show ?thesis by blast
qed

text \<open>
  C6. Constructing a generator throws exactly when, after the defaults of 300 and 300,
  the interval is not positive, the bin count is not positive, or the bin count exceeds
  the interval; otherwise the generator holds the effective values. An interval of 0, a
  bin count of 0, and a bin count of 120 with an interval of 60 are each rejected.
\<close>

theorem newTaskGenerator_throws_iff:
  "(let i = (case cfg_intervalSeconds config of None \<Rightarrow> 300 | Some v \<Rightarrow> v);
        b = (case cfg_binCount config of None \<Rightarrow> 300 | Some v \<Rightarrow> v)
    in (isl (newTaskGenerator config) \<longleftrightarrow> i \<le> 0 \<or> b \<le> 0 \<or> b > i)
       \<and> (\<not> isl (newTaskGenerator config)
            \<longrightarrow> newTaskGenerator config = Inr \<lparr>intervalSeconds = i, binCount = b\<rparr>))
   \<and> isl (newTaskGenerator \<lparr>cfg_intervalSeconds = Some 0, cfg_binCount = None\<rparr>)
   \<and> isl (newTaskGenerator \<lparr>cfg_intervalSeconds = None, cfg_binCount = Some 0\<rparr>)
   \<and> isl (newTaskGenerator \<lparr>cfg_intervalSeconds = Some 60, cfg_binCount = Some 120\<rparr>)"
  by (simp add: newTaskGenerator_def Let_def SCRAPE_INTERVAL_SECONDS_def DEFAULT_BIN_COUNT_def
           split: option.split)

theorem newTaskGenerator_throws_iff_witness:
  "newTaskGenerator \<lparr>cfg_intervalSeconds = Some 60, cfg_binCount = None\<rparr>
     = Inl BinCountExceedsInterval
   \<and> newTaskGenerator \<lparr>cfg_intervalSeconds = None, cfg_binCount = Some 60\<rparr>
     = Inr \<lparr>intervalSeconds = 300, binCount = 60\<rparr>"
proof -
  have a: "newTaskGenerator \<lparr>cfg_intervalSeconds = Some 60, cfg_binCount = None\<rparr>
     = Inl BinCountExceedsInterval"
    by (simp add: newTaskGenerator_def SCRAPE_INTERVAL_SECONDS_def DEFAULT_BIN_COUNT_def)
  from newTaskGenerator_throws_iff
         [of "\<lparr>cfg_intervalSeconds = None, cfg_binCount = Some 60\<rparr>"] a
  show ?thesis by (simp add: Let_def)
qed


section \<open>Task generation\<close>

lemma newTaskGenerator_Inr:
  assumes "newTaskGenerator config = Inr g"
  shows "0 < binCount g" and "binCount g \<le> intervalSeconds g"
  using assms
  by (auto simp: newTaskGenerator_def Let_def split: if_splits)

lemma generateTaskForPatient_invalid:
  assumes "\<not> validId (patient_id p)"
  shows "generateTaskForPatient g p c w
       = Inl (if patient_id p = [] then PatientIdRequired else PatientIdEmpty)"
  using assms by (simp add: generateTaskForPatient_def computeOffset_eq)

lemma generateTaskForPatient_valid:
  assumes "validId (patient_id p)" and "0 < binCount g"
  shows "generateTaskForPatient g p c w
       = Inr (\<lparr>task_id = uuidSource w (uuidCalls w), patientId = patient_id p,
                fireAt = newDate (map_option (\<lambda>t. t + (digestPrefix (patient_id p) mod binCount g) * 1000) c),
                offsetSeconds = digestPrefix (patient_id p) mod binCount g,
                status = pending, consecutiveFailures = 0,
                createdAt = newDate (Some (clockSource w (clockCalls w))), completedAt = None\<rparr>,
              w\<lparr>uuidCalls := Suc (uuidCalls w), clockCalls := Suc (clockCalls w)\<rparr>)"
proof -
  have "patient_id p \<noteq> []" using assms(1) by (auto simp: validId_def)
  then show ?thesis
    using assms
    by (simp add: generateTaskForPatient_def computeOffset_eq computeFireTime_def
        randomUUID_def dateNow_def getTime_def)
qed

lemma generateTaskForPatient_isl:
  assumes "0 < binCount g"
  shows "isl (generateTaskForPatient g p c w) \<longleftrightarrow> \<not> validId (patient_id p)"
  using assms generateTaskForPatient_valid [of p g c w] generateTaskForPatient_invalid [of p g c w]
  by (cases "validId (patient_id p)") simp_all

lemma generateLoop_append:
  "generateLoop g c (xs @ ys) st = generateLoop g c ys (generateLoop g c xs st)"
proof (induction xs arbitrary: st)
  case Nil
  then show ?case by simp
next
  case (Cons x xs)
  obtain ts bd w where st: "st = (ts, bd, w)" by (cases st)
  show ?case
    by (simp add: st Cons.IH split: sum.split prod.split)
qed

lemma generateLoop_skip:
  assumes "\<not> validId (patient_id p)"
  shows "generateLoop g c (p # ps) st = generateLoop g c ps st"
proof -
  obtain ts bd w where st: "st = (ts, bd, w)" by (cases st)
  show ?thesis
    by (simp add: st generateTaskForPatient_invalid [OF assms])
qed


lemma histogramOf_initBins: "histogramOf n (initBins 0 n []) []"
  by (simp add: histogramOf_def initBins_0)

lemma map_of_histogram:
  "map_of (map (\<lambda>b. (b, f b)) ks) k = (if k \<in> set ks then Some (f k) else None)"
  by (induction ks) auto

lemma update_histogram:
  assumes "k \<in> set ks" and "distinct ks"
  shows "AList.update k (g k) (map (\<lambda>b. (b, f b)) ks) = map (\<lambda>b. (b, (f(k := g k)) b)) ks"
  using assms by (induction ks) auto

lemma histogramOf_step:
  assumes h: "histogramOf n bd offs" and k: "0 \<le> k" "k < n"
  shows "histogramOf n (AList.update k (getOr0 bd k + 1) bd) (offs @ [k])"
proof -
  have bd: "bd = map (\<lambda>b. (b, count_list offs b)) [0..n - 1]"
    using h by (simp add: histogramOf_def)
  have mem: "k \<in> set [0..n - 1]" using k by simp
  have get: "getOr0 bd k = count_list offs k"
    using mem by (simp add: getOr0_def bd map_of_histogram)
  have "AList.update k (count_list offs k + 1) (map (\<lambda>b. (b, count_list offs b)) [0..n - 1])
      = map (\<lambda>b. (b, ((count_list offs)(k := count_list offs k + 1)) b)) [0..n - 1]"
    using update_histogram [OF mem distinct_upto, of "\<lambda>_. count_list offs k + 1" "count_list offs"] by simp
  also have "\<dots> = map (\<lambda>b. (b, count_list (offs @ [k]) b)) [0..n - 1]"
    by (rule map_cong) auto
  finally show ?thesis
    by (simp add: histogramOf_def get) (simp add: bd)
qed



lemma generateTaskForPatient_valid_props:
  assumes "validId (patient_id p)" and "0 < binCount g"
  obtains t where
    "generateTaskForPatient g p c w
       = Inr (t, w\<lparr>uuidCalls := Suc (uuidCalls w), clockCalls := Suc (clockCalls w)\<rparr>)"
    and "patientId t = patient_id p" and "taskOf g c t"
    and "0 \<le> offsetSeconds t" and "offsetSeconds t < binCount g"
proof -
  let ?t = "\<lparr>task_id = uuidSource w (uuidCalls w), patientId = patient_id p,
                fireAt = newDate (map_option (\<lambda>t. t + (digestPrefix (patient_id p) mod binCount g) * 1000) c),
                offsetSeconds = digestPrefix (patient_id p) mod binCount g,
                status = pending, consecutiveFailures = 0,
                createdAt = newDate (Some (clockSource w (clockCalls w))), completedAt = None\<rparr>"
  show thesis
  proof (rule that [of ?t])
    show "generateTaskForPatient g p c w
       = Inr (?t, w\<lparr>uuidCalls := Suc (uuidCalls w), clockCalls := Suc (clockCalls w)\<rparr>)"
      by (rule generateTaskForPatient_valid [OF assms])
    show "patientId ?t = patient_id p" by simp
    show "taskOf g c ?t" using assms by (simp add: taskOf_def getTime_def)
    show "0 \<le> offsetSeconds ?t" using assms(2) by simp
    show "offsetSeconds ?t < binCount g" using assms(2) by simp
  qed
qed

lemma generateLoop_inv:
  assumes pos: "0 < binCount g"
  shows "generateLoop g c ps (ts, bd, w) = (ts', bd', w') \<Longrightarrow>
         map patientId ts' = map patientId ts @ filter validId (map patient_id ps)
         \<and> (histogramOf (binCount g) bd (map offsetSeconds ts)
              \<longrightarrow> histogramOf (binCount g) bd' (map offsetSeconds ts'))
         \<and> (list_all (taskOf g c) ts \<longrightarrow> list_all (taskOf g c) ts')"
proof (induction ps arbitrary: ts bd w)
  case Nil
  then show ?case by simp
next
  case (Cons p ps)
  show ?case
  proof (cases "validId (patient_id p)")
    case False
    then have "generateLoop g c ps (ts, bd, w) = (ts', bd', w')"
      using Cons.prems by (simp only: generateLoop_skip [OF False])
    from Cons.IH [OF this] False show ?thesis by simp
  next
    case True
    from generateTaskForPatient_valid_props [OF True pos, of c w]
    obtain t where gen: "generateTaskForPatient g p c w
         = Inr (t, w\<lparr>uuidCalls := Suc (uuidCalls w), clockCalls := Suc (clockCalls w)\<rparr>)"
      and pid: "patientId t = patient_id p" and ok: "taskOf g c t"
      and lo: "0 \<le> offsetSeconds t" and hi: "offsetSeconds t < binCount g"
      by blast
    let ?bd = "AList.update (offsetSeconds t) (getOr0 bd (offsetSeconds t) + 1) bd"
    have "generateLoop g c ps (ts @ [t], ?bd,
            w\<lparr>uuidCalls := Suc (uuidCalls w), clockCalls := Suc (clockCalls w)\<rparr>) = (ts', bd', w')"
      using Cons.prems by (simp add: gen)
    from Cons.IH [OF this]
    have ih: "map patientId ts' = map patientId (ts @ [t]) @ filter validId (map patient_id ps)"
      "histogramOf (binCount g) ?bd (map offsetSeconds (ts @ [t]))
          \<longrightarrow> histogramOf (binCount g) bd' (map offsetSeconds ts')"
      "list_all (taskOf g c) (ts @ [t]) \<longrightarrow> list_all (taskOf g c) ts'"
      by blast+
    have step: "histogramOf (binCount g) bd (map offsetSeconds ts)
          \<Longrightarrow> histogramOf (binCount g) ?bd (map offsetSeconds (ts @ [t]))"
      using histogramOf_step [OF _ lo hi] by simp
    show ?thesis
      using ih step ok True by (auto simp: pid)
  qed
qed

lemma generateTasksForPatients_props:
  fixes g ps c w
  assumes pos: "0 < binCount g"
  defines "r \<equiv> fst (generateTasksForPatients g ps c w)"
  shows "map patientId (tasks r) = filter validId (map patient_id ps)"
    and "histogramOf (binCount g) (binDistribution (stats r)) (map offsetSeconds (tasks r))"
    and "list_all (taskOf g c) (tasks r)"
    and "totalPatients (stats r) = length ps"
    and "tasksGenerated (stats r) = length (tasks r)"
proof -
  let ?w0 = "snd (dateNow w)"
  obtain ts bd w1 where
    run: "generateLoop g c ps ([], initBins 0 (binCount g) [], ?w0) = (ts, bd, w1)"
    by (cases "generateLoop g c ps ([], initBins 0 (binCount g) [], ?w0)")
  have r: "tasks r = ts" "binDistribution (stats r) = bd" "totalPatients (stats r) = length ps"
    "tasksGenerated (stats r) = length ts"
    using run by (simp_all add: r_def generateTasksForPatients_def case_prod_beta)
  from generateLoop_inv [OF pos run] histogramOf_initBins [of "binCount g"]
  have "map patientId ts = filter validId (map patient_id ps)"
    "histogramOf (binCount g) bd (map offsetSeconds ts)" "list_all (taskOf g c) ts"
    by simp_all
  with r show "map patientId (tasks r) = filter validId (map patient_id ps)"
    and "histogramOf (binCount g) (binDistribution (stats r)) (map offsetSeconds (tasks r))"
    and "list_all (taskOf g c) (tasks r)"
    and "totalPatients (stats r) = length ps"
    and "tasksGenerated (stats r) = length (tasks r)"
    by simp_all
qed


lemma generateTasksForPatients_skip:
  assumes "\<not> validId (patient_id p)"
  shows "generateTasksForPatients g (pre @ p # post) c w
       = (let (r, w') = generateTasksForPatients g (pre @ post) c w
          in (r\<lparr>stats := (stats r)\<lparr>totalPatients := Suc (totalPatients (stats r))\<rparr>\<rparr>, w'))"
proof -
  have "generateLoop g c (pre @ p # post) st = generateLoop g c (pre @ post) st" for st
    by (simp add: generateLoop_append generateLoop_skip [OF assms])
  then show ?thesis
    by (simp add: generateTasksForPatients_def case_prod_beta)
qed

lemma generateTasksForPatients_same_failure:
  assumes "\<not> validId (patient_id p)" and "\<not> validId (patient_id q)"
  shows "generateTasksForPatients g (pre @ p # post) c w
       = generateTasksForPatients g (pre @ q # post) c w"
  by (simp only: generateTasksForPatients_skip [OF assms(1)]
                 generateTasksForPatients_skip [OF assms(2)])

lemma validId_Nil [simp]: "\<not> validId []"
  by (simp add: validId_def)


text \<open>
  C5. In a batch every record whose task generation throws is passed over and the rest are
  processed: the tasks are, in order, one per record whose id is not empty once trimmed.
  Hence there are at most as many tasks as records, and fewer exactly when some record is
  invalid; 999 valid records and one record with an empty id give 999 tasks.
\<close>

theorem batch_skips_invalid_records:
  assumes "newTaskGenerator config = Inr g"
  shows "(let r = fst (generateTasksForPatients g patients cycleStart w) in
            map patientId (tasks r) = filter validId (map patient_id patients)
            \<and> (\<forall>w'. \<forall>p \<in> set patients.
                  isl (generateTaskForPatient g p cycleStart w') \<longleftrightarrow> \<not> validId (patient_id p))
            \<and> length (tasks r) \<le> length patients
            \<and> (length (tasks r) < length patients
                 \<longleftrightarrow> (\<exists>p \<in> set patients. \<not> validId (patient_id p)))
            \<and> totalPatients (stats r) = length patients
            \<and> tasksGenerated (stats r) = length (tasks r))
         \<and> (length pre + length post = 999
              \<and> (\<forall>p \<in> set (pre @ post). validId (patient_id p)) \<and> patient_id bad = []
              \<longrightarrow> length (tasks (fst (generateTasksForPatients g (pre @ bad # post) cycleStart w)))
                  = 999)"
proof -
  have pos: "0 < binCount g" by (rule newTaskGenerator_Inr(1) [OF assms])
  have ids: "map patientId (tasks (fst (generateTasksForPatients g ps cycleStart w)))
           = filter validId (map patient_id ps)" for ps
    by (rule generateTasksForPatients_props(1) [OF pos])
  have len: "length (tasks (fst (generateTasksForPatients g ps cycleStart w)))
           = length (filter validId (map patient_id ps))" for ps
    using arg_cong [OF ids [of ps], of length] by simp
  have le: "length (filter validId (map patient_id patients)) \<le> length patients"
    using length_filter_le [of validId "map patient_id patients"] by simp
  have lt: "length (filter validId (map patient_id patients)) < length patients
          \<longleftrightarrow> (\<exists>p \<in> set patients. \<not> validId (patient_id p))"
    using length_filter_less [of _ "map patient_id patients" validId]
          filter_True [of "map patient_id patients" validId]
    by (metis (mono_tags, lifting) image_iff length_map less_irrefl list.set_map)
  have special: "length (tasks (fst (generateTasksForPatients g (pre @ bad # post) cycleStart w))) = 999"
    if "length pre + length post = 999" "\<forall>p \<in> set (pre @ post). validId (patient_id p)"
       "patient_id bad = []"
  proof -
    have "filter validId (map patient_id (pre @ bad # post)) = map patient_id (pre @ post)"
      using that by (simp add: filter_id_conv)
    then show ?thesis using that(1) by (simp only: len) simp
  qed
  show ?thesis
    using ids [of patients] len [of patients] le lt special
      generateTaskForPatient_isl [OF pos]
      generateTasksForPatients_props(4,5) [OF pos, of patients cycleStart w]
    by (simp add: Let_def)
qed


lemma default_generator:
  "newTaskGenerator \<lparr>cfg_intervalSeconds = None, cfg_binCount = None\<rparr>
     = Inr \<lparr>intervalSeconds = 300, binCount = 300\<rparr>"
  by (simp add: newTaskGenerator_def SCRAPE_INTERVAL_SECONDS_def DEFAULT_BIN_COUNT_def)

lemma validId_patient_123': "validId (fromAscii ''patient-123'')"
  using validId_patient_123 by (simp add: validId_def)

theorem batch_skips_invalid_records_witness:
  "newTaskGenerator \<lparr>cfg_intervalSeconds = None, cfg_binCount = None\<rparr>
     = Inr \<lparr>intervalSeconds = 300, binCount = 300\<rparr>
   \<and> map patientId (tasks (fst (generateTasksForPatients \<lparr>intervalSeconds = 300, binCount = 300\<rparr>
         [\<lparr>patient_id = fromAscii ''patient-123'', endpointUrl = None, riskLevel = None\<rparr>,
          \<lparr>patient_id = [], endpointUrl = None, riskLevel = None\<rparr>,
          \<lparr>patient_id = fromAscii ''patient-123'', endpointUrl = None, riskLevel = Some high\<rparr>]
         (Some 0) world0)))
     = [fromAscii ''patient-123'', fromAscii ''patient-123'']
   \<and> length (tasks (fst (generateTasksForPatients \<lparr>intervalSeconds = 300, binCount = 300\<rparr>
         (replicate 999 \<lparr>patient_id = fromAscii ''patient-123'', endpointUrl = None, riskLevel = None\<rparr>
          @ \<lparr>patient_id = [], endpointUrl = None, riskLevel = None\<rparr> # [])
         (Some 0) world0))) = 999"
proof -
  let ?g = "\<lparr>intervalSeconds = 300, binCount = 300\<rparr>"
  let ?p = "\<lparr>patient_id = fromAscii ''patient-123'', endpointUrl = None, riskLevel = None\<rparr>"
  let ?q = "\<lparr>patient_id = fromAscii ''patient-123'', endpointUrl = None, riskLevel = Some high\<rparr>"
  let ?bad = "\<lparr>patient_id = [], endpointUrl = None, riskLevel = None\<rparr>"
  note inst = batch_skips_invalid_records [OF default_generator,
      of "[?p, ?bad, ?q]" "Some 0" world0 "replicate 999 ?p" "[]" ?bad]
  have a: "map patientId (tasks (fst (generateTasksForPatients ?g [?p, ?bad, ?q] (Some 0) world0)))
         = [fromAscii ''patient-123'', fromAscii ''patient-123'']"
    using inst validId_patient_123' by (simp add: Let_def)
  have b: "length (tasks (fst (generateTasksForPatients ?g (replicate 999 ?p @ ?bad # [])
              (Some 0) world0))) = 999"
    using inst validId_patient_123' by simp
  from default_generator a b show ?thesis by blast
qed

text \<open>
  C10. A record whose id is not empty but consists of white space only passes the
  generator's own check and is rejected by \<open>computeOffset\<close>; in a batch the error is
  caught and the record passed over. The batch gives the tasks, the bin map and the task
  count it gives without the record, with the record counted in \<open>totalPatients\<close>, and
  it gives the same result as with an empty id in its place.
\<close>

theorem whitespace_id_dropped_in_batch:
  assumes "newTaskGenerator config = Inr g"
    and "patient_id p \<noteq> []" and "whitespaceOnly (patient_id p)"
  shows "computeOffset (patient_id p) (binCount g) = Inl PatientIdEmpty
       \<and> generateTaskForPatient g p cycleStart w = Inl PatientIdEmpty
       \<and> generateTaskForPatient g (p\<lparr>patient_id := []\<rparr>) cycleStart w = Inl PatientIdRequired
       \<and> (let r = fst (generateTasksForPatients g (pre @ p # post) cycleStart w);
               r' = fst (generateTasksForPatients g (pre @ post) cycleStart w)
           in tasks r = tasks r'
              \<and> binDistribution (stats r) = binDistribution (stats r')
              \<and> tasksGenerated (stats r) = tasksGenerated (stats r')
              \<and> totalPatients (stats r) = Suc (totalPatients (stats r'))
              \<and> totalPatients (stats r) = Suc (length pre + length post)
              \<and> tasksGenerated (stats r) = length (filter validId (map patient_id (pre @ post))))
       \<and> generateTasksForPatients g (pre @ p # post) cycleStart w
         = generateTasksForPatients g (pre @ p\<lparr>patient_id := []\<rparr> # post) cycleStart w"
proof -
  have pos: "0 < binCount g" by (rule newTaskGenerator_Inr(1) [OF assms(1)])
  have inv: "\<not> validId (patient_id p)"
    using assms(3) by (simp add: validId_def trim_Nil_iff)
  have inv': "\<not> validId (patient_id (p\<lparr>patient_id := []\<rparr>))" by simp
  have 1: "computeOffset (patient_id p) (binCount g) = Inl PatientIdEmpty"
    using inv by (simp add: computeOffset_eq)
  have 2: "generateTaskForPatient g p cycleStart w = Inl PatientIdEmpty"
    using generateTaskForPatient_invalid [OF inv] assms(2) by simp
  have 3: "generateTaskForPatient g (p\<lparr>patient_id := []\<rparr>) cycleStart w = Inl PatientIdRequired"
    using generateTaskForPatient_invalid [OF inv'] by simp
  have 4: "generateTasksForPatients g (pre @ p # post) cycleStart w
         = generateTasksForPatients g (pre @ p\<lparr>patient_id := []\<rparr> # post) cycleStart w"
    by (rule generateTasksForPatients_same_failure [OF inv inv'])
  have 5: "tasksGenerated (stats (fst (generateTasksForPatients g (pre @ post) cycleStart w)))
         = length (filter validId (map patient_id (pre @ post)))"
    using generateTasksForPatients_props(1,5) [OF pos, of "pre @ post" cycleStart w]
    by (metis length_map)
  have 6: "totalPatients (stats (fst (generateTasksForPatients g (pre @ post) cycleStart w)))
         = length pre + length post"
    using generateTasksForPatients_props(4) [OF pos, of "pre @ post" cycleStart w] by simp
  have 7: "(let r = fst (generateTasksForPatients g (pre @ p # post) cycleStart w);
               r' = fst (generateTasksForPatients g (pre @ post) cycleStart w)
           in tasks r = tasks r'
              \<and> binDistribution (stats r) = binDistribution (stats r')
              \<and> tasksGenerated (stats r) = tasksGenerated (stats r')
              \<and> totalPatients (stats r) = Suc (totalPatients (stats r'))
              \<and> totalPatients (stats r) = Suc (length pre + length post)
              \<and> tasksGenerated (stats r) = length (filter validId (map patient_id (pre @ post))))"
    using 5 6
    by (simp add: generateTasksForPatients_skip [OF inv] Let_def case_prod_beta)
  from 1 2 3 7 4 show ?thesis by blast
qed

theorem whitespace_id_dropped_in_batch_witness:
  "newTaskGenerator \<lparr>cfg_intervalSeconds = None, cfg_binCount = None\<rparr>
     = Inr \<lparr>intervalSeconds = 300, binCount = 300\<rparr>
   \<and> [0x20, 0x09, 0x20] \<noteq> ([] :: jsstring) \<and> whitespaceOnly [0x20, 0x09, 0x20]
   \<and> generateTaskForPatient \<lparr>intervalSeconds = 300, binCount = 300\<rparr>
        \<lparr>patient_id = [0x20, 0x09, 0x20], endpointUrl = None, riskLevel = None\<rparr> (Some 0) world0
      = Inl PatientIdEmpty
   \<and> totalPatients (stats (fst (generateTasksForPatients \<lparr>intervalSeconds = 300, binCount = 300\<rparr>
        ([] @ \<lparr>patient_id = [0x20, 0x09, 0x20], endpointUrl = None, riskLevel = None\<rparr> # [])
        (Some 0) world0))) = 1
   \<and> tasksGenerated (stats (fst (generateTasksForPatients \<lparr>intervalSeconds = 300, binCount = 300\<rparr>
        ([] @ \<lparr>patient_id = [0x20, 0x09, 0x20], endpointUrl = None, riskLevel = None\<rparr> # [])
        (Some 0) world0))) = 0"
proof -
  let ?p = "\<lparr>patient_id = [0x20, 0x09, 0x20], endpointUrl = None, riskLevel = None\<rparr>"
  have ne: "patient_id ?p \<noteq> []" by simp
  have ws: "whitespaceOnly (patient_id ?p)" by code_simp
  note inst = whitespace_id_dropped_in_batch
      [OF default_generator ne ws, of "Some 0" world0 "[]" "[]", unfolded Let_def]
  have ws': "whitespaceOnly [0x20, 0x09, 0x20]" using ws by simp
  have a: "generateTaskForPatient \<lparr>intervalSeconds = 300, binCount = 300\<rparr> ?p (Some 0) world0
         = Inl PatientIdEmpty"
    using inst by blast
  have "totalPatients (stats (fst (generateTasksForPatients \<lparr>intervalSeconds = 300, binCount = 300\<rparr>
          ([] @ ?p # []) (Some 0) world0))) = Suc (length ([] :: PatientInput list) + length ([] :: PatientInput list))"
    using inst by blast
  then have b: "totalPatients (stats (fst (generateTasksForPatients \<lparr>intervalSeconds = 300, binCount = 300\<rparr>
          ([] @ ?p # []) (Some 0) world0))) = 1"
    by simp
  have "tasksGenerated (stats (fst (generateTasksForPatients \<lparr>intervalSeconds = 300, binCount = 300\<rparr>
          ([] @ ?p # []) (Some 0) world0)))
        = length (filter validId (map patient_id (([] :: PatientInput list) @ [])))"
    using inst by blast
  then have c: "tasksGenerated (stats (fst (generateTasksForPatients \<lparr>intervalSeconds = 300, binCount = 300\<rparr>
          ([] @ ?p # []) (Some 0) world0))) = 0"
    by simp
  have d: "[0x20, 0x09, 0x20] \<noteq> ([] :: jsstring)" by simp
  from default_generator d ws' a b c show ?thesis by blast
qed


section \<open>Distribution analysis\<close>









section \<open>Fire times\<close>

lemma sha256_patient_123:
  "take 4 (sha256 (utf8 (fromAscii ''patient-123''))) = [0x19, 0x85, 0x45, 0x01]"
  by code_simp

lemma digestPrefix_patient_123: "digestPrefix (fromAscii ''patient-123'') = 428164353"
  by (simp add: digestPrefix_def sha256_patient_123 be32_def)

lemma computeOffset_patient_123: "computeOffset (fromAscii ''patient-123'') 300 = Inr 153"
  by (simp add: computeOffset_eq validId_patient_123' digestPrefix_patient_123)





text \<open>
  C4, as amended. Let \<open>k\<close> be the offset of a valid identifier for a positive bin count,
  and let the cycle starts \<open>c\<close> and \<open>c + I\<close> seconds be valid dates. If both sums of a
  cycle start and \<open>k\<close> seconds stay within the largest time value of a date, the two fire
  times are dates and differ by exactly \<open>I\<close> seconds.
\<close>

theorem fire_times_differ_by_interval:
  assumes "computeOffset identifier n = Inr k"
    and "\<bar>c\<bar> \<le> maxTimeValue" and "\<bar>c + I * 1000\<bar> \<le> maxTimeValue"
    and "c + k * 1000 \<le> maxTimeValue" and "c + I * 1000 + k * 1000 \<le> maxTimeValue"
  shows "\<exists>f1 f2. computeFireTime identifier (Some c) n = Inr (Some f1)
           \<and> computeFireTime identifier (newDate (Some (c + I * 1000))) n = Inr (Some f2)
           \<and> f2 - f1 = I * 1000"
proof -
  have k: "0 \<le> k"
    using assms(1) by (auto simp: computeOffset_eq split: if_splits)
  have d: "newDate (Some (c + I * 1000)) = Some (c + I * 1000)"
    using assms(3) by (simp add: newDate_def)
  have 1: "computeFireTime identifier (Some c) n = Inr (Some (c + k * 1000))"
    using assms(2,4) k by (simp add: computeFireTime_def assms(1) getTime_def newDate_def)
  have 2: "computeFireTime identifier (newDate (Some (c + I * 1000))) n
         = Inr (Some (c + I * 1000 + k * 1000))"
    using assms(3,5) k by (simp add: d computeFireTime_def assms(1) getTime_def newDate_def)
  have "(c + I * 1000 + k * 1000) - (c + k * 1000) = I * 1000" by simp
  with 1 2 show ?thesis by blast
qed


theorem fire_times_differ_by_interval_witness:
  "computeOffset (fromAscii ''patient-123'') 300 = Inr 153
   \<and> \<bar>1768903200000\<bar> \<le> maxTimeValue \<and> \<bar>1768903200000 + 300 * 1000\<bar> \<le> maxTimeValue
   \<and> 1768903200000 + 153 * 1000 \<le> maxTimeValue
   \<and> 1768903200000 + 300 * 1000 + 153 * 1000 \<le> maxTimeValue
   \<and> (\<exists>f1 f2. computeFireTime (fromAscii ''patient-123'') (Some 1768903200000) 300
                   = Inr (Some f1)
         \<and> computeFireTime (fromAscii ''patient-123'')
               (newDate (Some (1768903200000 + 300 * 1000))) 300 = Inr (Some f2)
         \<and> f2 - f1 = 300 * 1000)"
proof -
  have a: "\<bar>1768903200000\<bar> \<le> maxTimeValue" by (simp add: maxTimeValue_def)
  have b: "\<bar>1768903200000 + 300 * 1000\<bar> \<le> maxTimeValue" by (simp add: maxTimeValue_def)
  have c: "1768903200000 + 153 * 1000 \<le> maxTimeValue" by (simp add: maxTimeValue_def)
  have d: "1768903200000 + 300 * 1000 + 153 * 1000 \<le> maxTimeValue"
    by (simp add: maxTimeValue_def)
  from fire_times_differ_by_interval [OF computeOffset_patient_123 a b c d]
       computeOffset_patient_123 a b c d
  show ?thesis by blast
qed


text \<open>
  C4 as stated fails: the cycle starts 300 seconds apart below are both valid dates, yet
  for an identifier with offset 153 the later fire time is an invalid date, so the two
  fire times have no difference of 300 seconds.
\<close>

theorem fire_time_gap_beyond_date_range:
  "computeOffset (fromAscii ''patient-123'') 300 = Inr 153
   \<and> newDate (Some (8639999999700000 + 300 * 1000)) = Some 8640000000000000
   \<and> computeFireTime (fromAscii ''patient-123'') (Some 8639999999700000) 300
     = Inr (Some 8639999999853000)
   \<and> computeFireTime (fromAscii ''patient-123'')
        (newDate (Some (8639999999700000 + 300 * 1000))) 300 = Inr None"
proof -
  have a: "newDate (Some (8639999999700000 + 300 * 1000)) = Some 8640000000000000"
    by (simp add: newDate_def maxTimeValue_def)
  have b: "computeFireTime (fromAscii ''patient-123'') (Some 8639999999700000) 300
     = Inr (Some 8639999999853000)"
    by (simp add: computeFireTime_def computeOffset_patient_123 getTime_def newDate_def
        maxTimeValue_def)
  have c: "computeFireTime (fromAscii ''patient-123'')
        (newDate (Some (8639999999700000 + 300 * 1000))) 300 = Inr None"
    by (simp add: computeFireTime_def computeOffset_patient_123 getTime_def newDate_def
        maxTimeValue_def)
  from computeOffset_patient_123 a b c show ?thesis by blast
qed


end
